theory Spec2Isabelle
  imports Main
begin

section \<open>The GCS adapter of pathy (\<^verbatim>\<open>src/pathy/gcs.py\<close>)\<close>

text \<open>
  The module is glue between pathy's bucket-client interface and the vendor SDK
  (\<^verbatim>\<open>google.cloud.storage\<close>). The SDK is not part of the repository, so everything
  it does is a parameter of the model: a \<open>storage_Client\<close> is the record of the answers its
  methods give. The adapter's own control flow (assertions, \<^verbatim>\<open>try\<close>/\<^verbatim>\<open>except\<close>,
  the pagination loops, the name computations) is translated function by function.
\<close>

subsection \<open>Exceptions\<close>

text \<open>
  \<open>GCSClientError\<close> is \<^verbatim>\<open>google.api_core.exceptions.ClientError\<close> (with its subclasses) and
  carries the message and the code; \<open>ClientError\<close> is pathy's own error type, raised by
  \<^verbatim>\<open>get_bucket\<close>; \<open>NameError\<close> carries the unbound name; \<open>OtherException\<close> stands for
  every exception of the SDK that is not of the client class.
\<close>

datatype exn =
    AssertionError
  | GCSClientError string int
  | ClientError string int
  | FileNotFoundError string
  | NameError string
  | OtherException string

subsection \<open>Vendor objects\<close>

text \<open>
  A \<^verbatim>\<open>datetime\<close> is used through its method \<^verbatim>\<open>timestamp()\<close> only; the value that
  method returns (a Python float, epoch seconds) is kept abstract as \<open>'ts\<close>.
\<close>

record 'ts datetime =
  timestamp :: 'ts

record 'ts storage_Blob =
  nb_name :: string
  nb_owner :: string
  nb_size :: int
  nb_updated :: "'ts datetime"

record storage_Bucket =
  sb_name :: string

text \<open>
  One page of a listing: the common prefixes (\<^verbatim>\<open>page.prefixes\<close>) and the items that
  iterating the page gives.
\<close>

record 'ts page =
  prefixes :: "string list"
  items :: "'ts storage_Blob list"

text \<open>
  What \<^verbatim>\<open>client.list_blobs(...)\<close> returns: iterating \<^verbatim>\<open>response.pages\<close> gives the pages
  of \<open>pages\<close> in order and then, when \<open>pages_error\<close> is \<open>Some e\<close>, raises \<open>e\<close> (a failed
  fetch of the next page); \<open>next_page_token\<close> is read after the pages.
\<close>

record 'ts response =
  pages :: "'ts page list"
  pages_error :: "exn option"
  next_page_token :: "string option"

text \<open>
  The session object. \<open>client_bucket\<close> is \<^verbatim>\<open>client.bucket(name)\<close>: the adapter is
  written for an answer that is a handle, \<^verbatim>\<open>None\<close> or a client error, so the model keeps
  all three, although the SDK's method is a factory that builds a handle for any name
  without sending a request (\<open>sdk_bucket\<close> below);
  \<open>client_list_blobs\<close> is \<^verbatim>\<open>client.list_blobs(name, prefix=, delimiter=, page_token=)\<close>;
  \<open>client_list_buckets\<close> is what iterating \<^verbatim>\<open>client.list_buckets()\<close> gives: the buckets
  and, when the iteration fails, the exception raised after them.
\<close>

record 'ts storage_Client =
  client_bucket :: "string \<Rightarrow> exn + storage_Bucket option"
  client_list_blobs ::
    "string \<Rightarrow> string option \<Rightarrow> string option \<Rightarrow> string option \<Rightarrow> exn + 'ts response"
  client_list_buckets :: "storage_Bucket list \<times> exn option"

subsection \<open>The adapter's records\<close>

text \<open>
  The path type \<^verbatim>\<open>PurePathy\<close> is declared in \<^verbatim>\<open>base.py\<close>; the adapter reads
  \<^verbatim>\<open>path.root\<close>, \<^verbatim>\<open>path.key\<close> and \<^verbatim>\<open>path._flavour.sep\<close>, a single character
  (\<^verbatim>\<open>/\<close>). \<^verbatim>\<open>path.key\<close> is \<^verbatim>\<open>None\<close> for a path that is only a bucket root, and
  otherwise the part of the path after the root.
\<close>

record PurePathy =
  root :: string
  key :: "string option"
  flavour_sep :: char

text \<open>
  \<^verbatim>\<open>key_name = str(path.key)\<close>: the key, and for a bucket-root path the text that
  \<^verbatim>\<open>str(None)\<close> gives.
\<close>

definition str_key :: "PurePathy \<Rightarrow> string" where
  "str_key path = (case key path of None \<Rightarrow> ''None'' | Some k \<Rightarrow> k)"

record BucketGCS =
  BucketGCS_name :: string
  BucketGCS_bucket :: storage_Bucket

text \<open>
  The \<^verbatim>\<open>bucket\<close> field of a \<^verbatim>\<open>BlobGCS\<close> is filled with the wrapper by \<^verbatim>\<open>list_blobs\<close>
  and with the native handle (\<^verbatim>\<open>self.bucket\<close>) by \<^verbatim>\<open>get_blob\<close> and \<^verbatim>\<open>copy_blob\<close>.
\<close>

datatype bucket_ref = Wrapper BucketGCS | Native storage_Bucket

record 'ts BlobGCS =
  BlobGCS_bucket :: bucket_ref
  BlobGCS_owner :: string
  BlobGCS_name :: string
  BlobGCS_raw :: "'ts storage_Blob option"
  BlobGCS_size :: int
  BlobGCS_updated :: 'ts

text \<open>
  Modelled from the spec: \<^verbatim>\<open>BucketEntry\<close> is declared in \<^verbatim>\<open>client.py\<close>, which is not
  among the sources; its fields are the name, the directory flag, the optional size, the
  optional modification time and the raw handle. \<open>None\<close> for the size or the time means
  that the constructor was called without that argument.
\<close>

record 'ts BucketEntryGCS =
  entry_name :: string
  is_dir :: bool
  entry_size :: "int option"
  last_modified :: "'ts option"
  entry_raw :: "'ts storage_Blob option"

record 'ts BucketClientGCS =
  client :: "'ts storage_Client option"

subsection \<open>Generators\<close>

text \<open>
  A generator run with a bound on the number of requests it may send is the list of the
  values it yielded and how it stopped: it returned, it raised, or the bound was reached
  (\<open>Pending\<close>: the generator would go on).
\<close>

datatype status = Finished | Raised exn | Pending

type_synonym 'a generator = "'a list \<times> status"

subsection \<open>\<^verbatim>\<open>BucketClientGCS.__init__\<close>\<close>

text \<open>
  \<open>storage\<close> is the module-level name: \<open>None\<close> when the import failed, otherwise the
  outcome of calling \<^verbatim>\<open>storage.Client()\<close>. Every exception of that call is caught.
\<close>

definition BucketClientGCS_init ::
  "(exn + 'ts storage_Client) option \<Rightarrow> 'ts storage_Client option \<Rightarrow> 'ts BucketClientGCS" where
  "BucketClientGCS_init storage client_arg =
     (case storage of
        None \<Rightarrow> \<lparr>client = None\<rparr>
      | Some made \<Rightarrow>
          (case made of
             Inl e \<Rightarrow> \<lparr>client = None\<rparr>
           | Inr fresh \<Rightarrow> \<lparr>client = Some fresh\<rparr>))"

subsection \<open>\<^verbatim>\<open>lookup_bucket\<close> and \<^verbatim>\<open>get_bucket\<close>\<close>

text \<open>
  \<^verbatim>\<open>lookup_bucket\<close> prints a caught client error and returns \<^verbatim>\<open>None\<close>; the printing is
  not modelled. Exceptions outside the client class are not caught.
\<close>

definition lookup_bucket :: "'ts BucketClientGCS \<Rightarrow> PurePathy \<Rightarrow> exn + BucketGCS option" where
  "lookup_bucket self path =
     (case client self of
        None \<Rightarrow> Inl AssertionError
      | Some c \<Rightarrow>
          (case client_bucket c (root path) of
             Inr (Some native_bucket) \<Rightarrow>
               Inr (Some \<lparr>BucketGCS_name = root path, BucketGCS_bucket = native_bucket\<rparr>)
           | Inr None \<Rightarrow> Inr None
           | Inl (GCSClientError msg code) \<Rightarrow> Inr None
           | Inl e \<Rightarrow> Inl e))"

definition get_bucket :: "'ts BucketClientGCS \<Rightarrow> PurePathy \<Rightarrow> exn + BucketGCS" where
  "get_bucket self path =
     (case client self of
        None \<Rightarrow> Inl AssertionError
      | Some c \<Rightarrow>
          (case client_bucket c (root path) of
             Inr (Some native_bucket) \<Rightarrow>
               Inr \<lparr>BucketGCS_name = root path, BucketGCS_bucket = native_bucket\<rparr>
           | Inr None \<Rightarrow> Inl (FileNotFoundError (''Bucket '' @ root path @ '' does not exist!''))
           | Inl (GCSClientError msg code) \<Rightarrow> Inl (ClientError msg code)
           | Inl e \<Rightarrow> Inl e))"

subsection \<open>\<^verbatim>\<open>BucketGCS.copy_blob\<close>\<close>

text \<open>
  \<open>native_copy_blob\<close> is the SDK's \<^verbatim>\<open>Bucket.copy_blob(blob, destination_bucket, new_name)\<close>,
  called on \<^verbatim>\<open>self.bucket\<close>; its exceptions are not caught.
\<close>

definition copy_blob ::
  "(storage_Bucket \<Rightarrow> 'ts storage_Blob \<Rightarrow> storage_Bucket \<Rightarrow> string \<Rightarrow> exn + 'ts storage_Blob option) \<Rightarrow>
   BucketGCS \<Rightarrow> 'ts BlobGCS \<Rightarrow> BucketGCS \<Rightarrow> string \<Rightarrow> exn + 'ts BlobGCS option" where
  "copy_blob native_copy_blob self blob target name =
     (case BlobGCS_raw blob of
        None \<Rightarrow> Inl AssertionError
      | Some raw \<Rightarrow>
          (case native_copy_blob (BucketGCS_bucket self) raw (BucketGCS_bucket target) name of
             Inl e \<Rightarrow> Inl e
           | Inr None \<Rightarrow> Inr None
           | Inr (Some native_blob) \<Rightarrow>
               Inr (Some \<lparr>BlobGCS_bucket = Native (BucketGCS_bucket self),
                          BlobGCS_owner = nb_owner native_blob,
                          BlobGCS_name = nb_name native_blob,
                          BlobGCS_raw = Some native_blob,
                          BlobGCS_size = nb_size native_blob,
                          BlobGCS_updated = timestamp (nb_updated native_blob)\<rparr>)))"

subsection \<open>Strings\<close>

text \<open>\<^verbatim>\<open>s.startswith(p)\<close> and \<^verbatim>\<open>s.endswith(p)\<close>.\<close>

definition startswith :: "string \<Rightarrow> string \<Rightarrow> bool" where
  "startswith s p = (take (length p) s = p)"

definition endswith :: "string \<Rightarrow> string \<Rightarrow> bool" where
  "endswith s p = (drop (length s - length p) s = p)"

text \<open>
  \<^verbatim>\<open>s.split(sep)\<close> for a separator of one character: the segments between the
  occurrences of the separator, never an empty list.
\<close>

fun py_split :: "char \<Rightarrow> string \<Rightarrow> string list" where
  "py_split c [] = [[]]"
| "py_split c (x # xs) =
     (if x = c then [] # py_split c xs
      else (case py_split c xs of [] \<Rightarrow> [[x]] | w # ws \<Rightarrow> (x # w) # ws))"

text \<open>
  \<^verbatim>\<open>s.split(sep)[-1]\<close>. The index cannot raise, since the list is not empty
  (\<open>py_split_not_Nil\<close> below).
\<close>

definition last_segment :: "char \<Rightarrow> string \<Rightarrow> string" where
  "last_segment sep s = last (py_split sep s)"

subsection \<open>The pagination loops\<close>

text \<open>
  \<^verbatim>\<open>if continuation_token:\<close> tests the token for truth: the request carries
  \<^verbatim>\<open>page_token\<close> only when the token is neither \<^verbatim>\<open>None\<close> nor the empty string.
\<close>

definition page_token_arg :: "string option \<Rightarrow> string option" where
  "page_token_arg continuation_token =
     (case continuation_token of
        None \<Rightarrow> None
      | Some t \<Rightarrow> if t = [] then None else Some t)"

definition dir_entry :: "string \<Rightarrow> 'ts BucketEntryGCS" where
  "dir_entry name =
     \<lparr>entry_name = name, is_dir = True, entry_size = None, last_modified = None,
      entry_raw = None\<rparr>"

definition folder_name :: "char \<Rightarrow> string \<Rightarrow> string" where
  "folder_name sep folder =
     (let full_name = (if endswith folder [sep] then butlast folder else folder)
      in last_segment sep full_name)"

fun scandir_folders :: "char \<Rightarrow> string list \<Rightarrow> 'ts BucketEntryGCS list" where
  "scandir_folders sep [] = []"
| "scandir_folders sep (folder # rest) =
     (let name = folder_name sep folder
      in if name \<noteq> [] then dir_entry name # scandir_folders sep rest
         else scandir_folders sep rest)"

fun scandir_items :: "char \<Rightarrow> 'ts storage_Blob list \<Rightarrow> 'ts BucketEntryGCS list" where
  "scandir_items sep [] = []"
| "scandir_items sep (item # rest) =
     (let name = last_segment sep (nb_name item)
      in if name \<noteq> []
         then \<lparr>entry_name = name, is_dir = False, entry_size = Some (nb_size item),
               last_modified = Some (timestamp (nb_updated item)), entry_raw = Some item\<rparr>
              # scandir_items sep rest
         else scandir_items sep rest)"

definition scandir_page :: "char \<Rightarrow> 'ts page \<Rightarrow> 'ts BucketEntryGCS list" where
  "scandir_page sep page = scandir_folders sep (prefixes page) @ scandir_items sep (items page)"

text \<open>
  The \<^verbatim>\<open>while True\<close> loop of \<^verbatim>\<open>scandir\<close>; the first argument bounds the number of
  requests. The delimiter sent is always the path's separator.
\<close>

fun scandir_loop ::
  "nat \<Rightarrow> 'ts storage_Client \<Rightarrow> char \<Rightarrow> string \<Rightarrow> string option \<Rightarrow> string option \<Rightarrow>
   'ts BucketEntryGCS generator" where
  "scandir_loop 0 c sep bucket_name prefix continuation_token = ([], Pending)"
| "scandir_loop (Suc n) c sep bucket_name prefix continuation_token =
     (case client_list_blobs c bucket_name prefix (Some [sep]) (page_token_arg continuation_token) of
        Inl e \<Rightarrow> ([], Raised e)
      | Inr response \<Rightarrow>
          (let ys = concat (map (scandir_page sep) (pages response))
           in case pages_error response of
                Some e \<Rightarrow> (ys, Raised e)
              | None \<Rightarrow>
                  (case next_page_token response of
                     None \<Rightarrow> (ys, Finished)
                   | Some t \<Rightarrow>
                       (case scandir_loop n c sep bucket_name prefix (Some t) of
                          (zs, st) \<Rightarrow> (ys @ zs, st)))))"

definition blob_of_item :: "BucketGCS \<Rightarrow> 'ts storage_Blob \<Rightarrow> 'ts BlobGCS" where
  "blob_of_item bucket item =
     \<lparr>BlobGCS_bucket = Wrapper bucket,
      BlobGCS_owner = nb_owner item,
      BlobGCS_name = nb_name item,
      BlobGCS_raw = Some item,
      BlobGCS_size = nb_size item,
      BlobGCS_updated = timestamp (nb_updated item)\<rparr>"

text \<open>The \<^verbatim>\<open>while True\<close> loop of \<^verbatim>\<open>list_blobs\<close>.\<close>

fun list_blobs_loop ::
  "nat \<Rightarrow> 'ts storage_Client \<Rightarrow> BucketGCS \<Rightarrow> string \<Rightarrow> string option \<Rightarrow> string option \<Rightarrow>
   string option \<Rightarrow> 'ts BlobGCS generator" where
  "list_blobs_loop 0 c bucket path_root prefix delimiter continuation_token = ([], Pending)"
| "list_blobs_loop (Suc n) c bucket path_root prefix delimiter continuation_token =
     (case client_list_blobs c path_root prefix delimiter (page_token_arg continuation_token) of
        Inl e \<Rightarrow> ([], Raised e)
      | Inr response \<Rightarrow>
          (let ys = concat (map (\<lambda>page. map (blob_of_item bucket) (items page)) (pages response))
           in case pages_error response of
                Some e \<Rightarrow> (ys, Raised e)
              | None \<Rightarrow>
                  (case next_page_token response of
                     None \<Rightarrow> (ys, Finished)
                   | Some t \<Rightarrow>
                       (case list_blobs_loop n c bucket path_root prefix delimiter (Some t) of
                          (zs, st) \<Rightarrow> (ys @ zs, st)))))"

subsection \<open>\<^verbatim>\<open>list_buckets\<close>, \<^verbatim>\<open>scandir\<close>, \<^verbatim>\<open>list_blobs\<close>, \<^verbatim>\<open>exists\<close>\<close>

definition list_buckets :: "'ts BucketClientGCS \<Rightarrow> exn + (storage_Bucket list \<times> exn option)" where
  "list_buckets self =
     (case client self of
        None \<Rightarrow> Inl AssertionError
      | Some c \<Rightarrow> Inr (client_list_buckets c))"

text \<open>The first branch of \<^verbatim>\<open>scandir\<close>: one entry per bucket that \<^verbatim>\<open>list_buckets\<close> gives.\<close>

definition scandir_buckets :: "'ts BucketClientGCS \<Rightarrow> 'ts BucketEntryGCS generator" where
  "scandir_buckets self =
     (case list_buckets self of
        Inl e \<Rightarrow> ([], Raised e)
      | Inr (buckets, err) \<Rightarrow>
          (map (\<lambda>bucket. dir_entry (sb_name bucket)) buckets,
           (case err of None \<Rightarrow> Finished | Some e \<Rightarrow> Raised e)))"

definition scandir ::
  "nat \<Rightarrow> 'ts BucketClientGCS \<Rightarrow> PurePathy option \<Rightarrow> string option \<Rightarrow> string option \<Rightarrow> bool \<Rightarrow>
   'ts BucketEntryGCS generator" where
  "scandir n self path prefix delimiter include_raw =
     (case client self of
        None \<Rightarrow> ([], Raised AssertionError)
      | Some c \<Rightarrow>
          (case path of
             None \<Rightarrow> scandir_buckets self
           | Some p \<Rightarrow>
               if root p = [] then scandir_buckets self
               else
                 (case lookup_bucket self p of
                    Inl e \<Rightarrow> ([], Raised e)
                  | Inr None \<Rightarrow> ([], Finished)
                  | Inr (Some bucket) \<Rightarrow>
                      scandir_loop n c (flavour_sep p) (BucketGCS_name bucket) prefix None)))"

definition list_blobs ::
  "nat \<Rightarrow> 'ts BucketClientGCS \<Rightarrow> PurePathy \<Rightarrow> string option \<Rightarrow> string option \<Rightarrow> bool \<Rightarrow>
   'ts BlobGCS generator" where
  "list_blobs n self path prefix delimiter include_dirs =
     (case client self of
        None \<Rightarrow> ([], Raised AssertionError)
      | Some c \<Rightarrow>
          (case lookup_bucket self path of
             Inl e \<Rightarrow> ([], Raised e)
           | Inr None \<Rightarrow> ([], Finished)
           | Inr (Some bucket) \<Rightarrow> list_blobs_loop n c bucket (root path) prefix delimiter None))"

text \<open>
  The \<^verbatim>\<open>for\<close> loop of \<^verbatim>\<open>exists\<close> over the objects the generator has yielded: \<open>True\<close> at
  the first object that matches.
\<close>

fun exists_loop :: "string \<Rightarrow> char \<Rightarrow> 'ts BlobGCS list \<Rightarrow> bool" where
  "exists_loop key_name sep [] = False"
| "exists_loop key_name sep (obj # rest) =
     (if BlobGCS_name obj = key_name then True
      else if startswith (BlobGCS_name obj) (key_name @ [sep]) then True
      else exists_loop key_name sep rest)"

text \<open>
  \<^verbatim>\<open>exists\<close> pulls objects from \<^verbatim>\<open>list_blobs(path)\<close> and stops at the first match, so a
  match among the objects yielded so far decides the call whatever the generator would do
  next. Otherwise the call returns \<open>False\<close> when the generator returns or raises a client
  error, and has not returned yet (\<open>None\<close>) while the generator is pending.

  \<open>has_gcs\<close> is the module's flag: it is \<open>False\<close> when the import of the SDK failed, and
  then the name \<^verbatim>\<open>gcs_errors\<close> is unbound, so that an exception which reaches the
  \<^verbatim>\<open>except gcs_errors.ClientError\<close> clause is replaced by the \<^verbatim>\<open>NameError\<close> of evaluating
  the clause (the failed assertion of an instance without client, for one). With the SDK
  there, an exception outside the client class goes through. A client error is an
  instance of a class of the SDK, so the SDK is there whenever one is raised.
\<close>

definition exists ::
  "bool \<Rightarrow> nat \<Rightarrow> 'ts BucketClientGCS \<Rightarrow> PurePathy \<Rightarrow> (exn + bool) option" where
  "exists has_gcs n self path =
     (case list_blobs n self path None None False of
        (objs, st) \<Rightarrow>
          if exists_loop (str_key path) (flavour_sep path) objs then Some (Inr True)
          else
            (case st of
               Pending \<Rightarrow> None
             | Finished \<Rightarrow> Some (Inr False)
             | Raised (GCSClientError msg code) \<Rightarrow> Some (Inr False)
             | Raised e \<Rightarrow>
                 if has_gcs then Some (Inl e) else Some (Inl (NameError ''gcs_errors''))))"

subsection \<open>Pagination as the specification describes it\<close>

text \<open>
  The specification's PAGE state: request a page with the prefix, the delimiter and the
  continuation token if there is one; when the response provides a continuation token,
  request again with that token, otherwise stop. \<open>paginated_listing c b prefix delimiter tok rs\<close>
  says that the requests starting with token \<open>tok\<close> succeed and give the responses \<open>rs\<close>,
  the last of which has no continuation token. A continuation token is a non-empty
  string.
\<close>

fun paginated_listing ::
  "'ts storage_Client \<Rightarrow> string \<Rightarrow> string option \<Rightarrow> string option \<Rightarrow> string option \<Rightarrow>
   'ts response list \<Rightarrow> bool" where
  "paginated_listing c b prefix delimiter tok [] = False"
| "paginated_listing c b prefix delimiter tok (r # rs) =
     (client_list_blobs c b prefix delimiter tok = Inr r \<and> pages_error r = None \<and>
      (case next_page_token r of
         None \<Rightarrow> rs = []
       | Some t \<Rightarrow> t \<noteq> [] \<and> paginated_listing c b prefix delimiter (Some t) rs))"

definition listed_pages :: "'ts response list \<Rightarrow> 'ts page list" where
  "listed_pages rs = concat (map pages rs)"

definition listed_items :: "'ts response list \<Rightarrow> 'ts storage_Blob list" where
  "listed_items rs = concat (map items (listed_pages rs))"

text \<open>
  A listing that fails: the requests starting with token \<open>tok\<close> succeed and give the
  responses \<open>rs\<close>, each with a continuation token, and then the fetch raises \<open>e\<close>: either
  the next request raises it, and \<open>last_pages\<close> is empty, or the next request gives a
  response whose pages \<open>last_pages\<close> arrive before the fetch of a further page raises it.
\<close>

fun failed_listing ::
  "'ts storage_Client \<Rightarrow> string \<Rightarrow> string option \<Rightarrow> string option \<Rightarrow> string option \<Rightarrow>
   'ts response list \<Rightarrow> 'ts page list \<Rightarrow> exn \<Rightarrow> bool" where
  "failed_listing c b prefix delimiter tok [] last_pages e =
     (case client_list_blobs c b prefix delimiter tok of
        Inl e' \<Rightarrow> e' = e \<and> last_pages = []
      | Inr r \<Rightarrow> pages_error r = Some e \<and> last_pages = pages r)"
| "failed_listing c b prefix delimiter tok (r # rs) last_pages e =
     (client_list_blobs c b prefix delimiter tok = Inr r \<and> pages_error r = None \<and>
      (case next_page_token r of
         None \<Rightarrow> False
       | Some t \<Rightarrow> t \<noteq> [] \<and> failed_listing c b prefix delimiter (Some t) rs last_pages e))"

text \<open>
  The SDK's \<^verbatim>\<open>Client.bucket\<close>: a handle for the name given, whether or not the store has
  such a bucket.
\<close>

definition sdk_bucket :: "string \<Rightarrow> exn + storage_Bucket option" where
  "sdk_bucket name = Inr (Some \<lparr>sb_name = name\<rparr>)"

subsection \<open>Example stores\<close>

text \<open>
  A store with the buckets \<open>b\<close> and \<open>c\<close>; \<open>b\<close> holds \<open>a/\<close>, \<open>a/b.txt\<close>, \<open>a/c.txt\<close> and
  \<open>f.txt\<close>. A listing without delimiter comes in two responses linked by the token
  \<open>t1\<close>; a listing with the delimiter \<open>/\<close> folds the keys under \<open>a/\<close> into a common
  prefix, and with the prefix \<open>a/\<close> it gives the three objects under it. Listing any
  other bucket raises the client error of a bucket that is not found.
\<close>

definition demo_item :: "string \<Rightarrow> int \<Rightarrow> nat \<Rightarrow> nat storage_Blob" where
  "demo_item k sz t =
     \<lparr>nb_name = k, nb_owner = ''alice'', nb_size = sz, nb_updated = \<lparr>timestamp = t\<rparr>\<rparr>"

definition demo_response_1 :: "nat response" where
  "demo_response_1 =
     \<lparr>pages = [\<lparr>prefixes = [], items = [demo_item ''a/'' 0 9, demo_item ''a/b.txt'' 3 10]\<rparr>,
               \<lparr>prefixes = [], items = [demo_item ''a/c.txt'' 4 11]\<rparr>],
      pages_error = None, next_page_token = Some ''t1''\<rparr>"

definition demo_response_2 :: "nat response" where
  "demo_response_2 =
     \<lparr>pages = [\<lparr>prefixes = [], items = [demo_item ''f.txt'' 5 12]\<rparr>],
      pages_error = None, next_page_token = None\<rparr>"

definition demo_response_top :: "nat response" where
  "demo_response_top =
     \<lparr>pages = [\<lparr>prefixes = [''a/''], items = [demo_item ''f.txt'' 5 12]\<rparr>],
      pages_error = None, next_page_token = None\<rparr>"

definition demo_response_a :: "nat response" where
  "demo_response_a =
     \<lparr>pages = [\<lparr>prefixes = [],
                items = [demo_item ''a/'' 0 9, demo_item ''a/b.txt'' 3 10,
                         demo_item ''a/c.txt'' 4 11]\<rparr>],
      pages_error = None, next_page_token = None\<rparr>"

definition demo_list_blobs ::
  "string \<Rightarrow> string option \<Rightarrow> string option \<Rightarrow> string option \<Rightarrow> exn + nat response" where
  "demo_list_blobs name prefix delimiter page_token =
     (if name \<noteq> ''b'' then Inl (GCSClientError ''Not Found'' 404)
      else if delimiter = None then
        (if page_token = None then Inr demo_response_1
         else if page_token = Some ''t1'' then Inr demo_response_2
         else Inl (GCSClientError ''Bad Request'' 400))
      else if prefix = Some ''a/'' then Inr demo_response_a
      else Inr demo_response_top)"

definition demo_client :: "nat storage_Client" where
  "demo_client =
     \<lparr>client_bucket = sdk_bucket,
      client_list_blobs = demo_list_blobs,
      client_list_buckets = ([\<lparr>sb_name = ''b''\<rparr>, \<lparr>sb_name = ''c''\<rparr>], None)\<rparr>"

text \<open>The path \<open>r/k\<close> below a root, and the path that is the root \<open>r\<close> only.\<close>

definition demo_path :: "string \<Rightarrow> string \<Rightarrow> PurePathy" where
  "demo_path r k = \<lparr>root = r, key = Some k, flavour_sep = CHR ''/''\<rparr>"

definition demo_root :: "string \<Rightarrow> PurePathy" where
  "demo_root r = \<lparr>root = r, key = None, flavour_sep = CHR ''/''\<rparr>"

text \<open>
  Stores whose listing fails: the first response gives one page and then the fetch of
  the next page raises a client error (\<open>flaky_client\<close>); the first request itself raises
  it (\<open>failing_client\<close>); the first response is complete and has the continuation token
  \<open>t1\<close>, and the request with that token raises it (\<open>throttled_client\<close>).
\<close>

definition flaky_client :: "nat storage_Client" where
  "flaky_client =
     \<lparr>client_bucket = sdk_bucket,
      client_list_blobs =
        (\<lambda>name prefix delimiter page_token.
           Inr \<lparr>pages = [\<lparr>prefixes = [''a/''], items = [demo_item ''f.txt'' 5 12]\<rparr>],
                pages_error = Some (GCSClientError ''Too Many Requests'' 429),
                next_page_token = None\<rparr>),
      client_list_buckets = ([], None)\<rparr>"

definition failing_client :: "nat storage_Client" where
  "failing_client =
     \<lparr>client_bucket = sdk_bucket,
      client_list_blobs =
        (\<lambda>name prefix delimiter page_token. Inl (GCSClientError ''Forbidden'' 403)),
      client_list_buckets = ([], None)\<rparr>"

definition throttled_response :: "nat response" where
  "throttled_response =
     \<lparr>pages = [\<lparr>prefixes = [], items = [demo_item ''f.txt'' 5 12]\<rparr>],
      pages_error = None, next_page_token = Some ''t1''\<rparr>"

definition throttled_client :: "nat storage_Client" where
  "throttled_client =
     \<lparr>client_bucket = sdk_bucket,
      client_list_blobs =
        (\<lambda>name prefix delimiter page_token.
           if page_token = None then Inr throttled_response
           else Inl (GCSClientError ''Too Many Requests'' 429)),
      client_list_buckets = ([\<lparr>sb_name = ''b''\<rparr>], None)\<rparr>"

text \<open>A store whose bucket \<open>b\<close> holds the one object \<open>None/x\<close>.\<close>

definition none_response :: "nat response" where
  "none_response =
     \<lparr>pages = [\<lparr>prefixes = [], items = [demo_item ''None/x'' 1 7]\<rparr>],
      pages_error = None, next_page_token = None\<rparr>"

definition none_client :: "nat storage_Client" where
  "none_client =
     \<lparr>client_bucket = sdk_bucket,
      client_list_blobs =
        (\<lambda>name prefix delimiter page_token.
           if name = ''b'' then Inr none_response else Inl (GCSClientError ''Not Found'' 404)),
      client_list_buckets = ([\<lparr>sb_name = ''b''\<rparr>], None)\<rparr>"

section \<open>Properties\<close>

subsection \<open>Strings, entries and the loops\<close>

text \<open>
  \<open>py_split\<close> is the split of Python: its segments hold no separator, and joining them
  with the separator gives the string back. The last segment is the part after the last
  separator, or the whole string when there is none.
\<close>

lemma py_split_not_Nil: "py_split c s \<noteq> []"
  by (induction s) (auto split: list.splits)

lemma startswith_iff: "startswith s p \<longleftrightarrow> (\<exists>rest. s = p @ rest)"
proof
  assume "startswith s p"
  then have "s = p @ drop (length p) s"
    unfolding startswith_def by (metis append_take_drop_id)
  then show "\<exists>rest. s = p @ rest" ..
next
  assume "\<exists>rest. s = p @ rest"
  then show "startswith s p" by (auto simp: startswith_def)
qed

lemma endswith_iff: "endswith s p \<longleftrightarrow> (\<exists>front. s = front @ p)"
proof
  assume "endswith s p"
  then have "s = take (length s - length p) s @ p"
    unfolding endswith_def by (metis append_take_drop_id)
  then show "\<exists>front. s = front @ p" ..
next
  assume "\<exists>front. s = front @ p"
  then show "endswith s p" by (auto simp: endswith_def)
qed

lemma py_split_segments_no_sep: "w \<in> set (py_split sep s) \<Longrightarrow> sep \<notin> set w"
  by (induction s arbitrary: w) (auto split: if_splits list.splits)

lemma last_segment_no_sep: "sep \<notin> set (last_segment sep s)"
  unfolding last_segment_def
  by (induction s) (auto simp: py_split_not_Nil split: list.splits)

lemma py_split_no_sep: "sep \<notin> set s \<Longrightarrow> py_split sep s = [s]"
  by (induction s) auto

lemma py_split_append:
  "py_split sep (front @ sep # w) = py_split sep front @ py_split sep w"
proof (induction front)
  case Nil
  show ?case by simp
next
  case (Cons x xs)
  obtain u us where "py_split sep xs = u # us"
    using py_split_not_Nil[of sep xs] by (cases "py_split sep xs") auto
  with Cons show ?case by simp
qed

lemma last_segment_whole: "sep \<notin> set s \<Longrightarrow> last_segment sep s = s"
  by (simp add: last_segment_def py_split_no_sep)

lemma last_segment_after_sep:
  "sep \<notin> set w \<Longrightarrow> last_segment sep (front @ sep # w) = w"
  by (simp add: last_segment_def py_split_append py_split_not_Nil py_split_no_sep)

lemma py_split_join: "concat (map (\<lambda>w. sep # w) (py_split sep s)) = sep # s"
  by (induction s) (auto split: list.splits simp: py_split_not_Nil)

lemma scandir_folders_eq:
  "scandir_folders sep fs =
     map dir_entry (filter (\<lambda>name. name \<noteq> []) (map (folder_name sep) fs))"
  by (induction fs) (simp_all add: Let_def)

lemma scandir_items_eq:
  "scandir_items sep its =
     map (\<lambda>item. \<lparr>entry_name = last_segment sep (nb_name item), is_dir = False,
                   entry_size = Some (nb_size item),
                   last_modified = Some (timestamp (nb_updated item)),
                   entry_raw = Some item\<rparr>)
       (filter (\<lambda>item. last_segment sep (nb_name item) \<noteq> []) its)"
  by (induction its) (simp_all add: Let_def)

lemma page_token_arg_id:
  "tok = None \<or> (\<exists>t. tok = Some t \<and> t \<noteq> []) \<Longrightarrow> page_token_arg tok = tok"
  by (auto simp: page_token_arg_def)

lemma list_blobs_loop_paginated:
  "paginated_listing c b prefix delimiter tok rs \<Longrightarrow>
   tok = None \<or> (\<exists>t. tok = Some t \<and> t \<noteq> []) \<Longrightarrow> length rs \<le> n \<Longrightarrow>
   list_blobs_loop n c bucket b prefix delimiter tok =
     (map (blob_of_item bucket) (listed_items rs), Finished)"
proof (induction rs arbitrary: n tok)
  case Nil
  then show ?case by simp
next
  case (Cons r rs)
  from Cons.prems(3) obtain m where n: "n = Suc m" and m: "length rs \<le> m"
    by (cases n) auto
  from Cons.prems(1) have req: "client_list_blobs c b prefix delimiter tok = Inr r"
    and noerr: "pages_error r = None" by simp_all
  have arg: "page_token_arg tok = tok" using Cons.prems(2) by (rule page_token_arg_id)
  show ?case
  proof (cases "next_page_token r")
    case None
    with Cons.prems(1) have "rs = []" by simp
    with None req noerr arg n show ?thesis
      by (simp add: listed_items_def listed_pages_def map_concat comp_def)
  next
    case (Some t)
    with Cons.prems(1) have t: "t \<noteq> []" and rest: "paginated_listing c b prefix delimiter (Some t) rs"
      by simp_all
    have "list_blobs_loop m c bucket b prefix delimiter (Some t) =
            (map (blob_of_item bucket) (listed_items rs), Finished)"
      using Cons.IH[OF rest _ m] t by simp
    with Some req noerr arg n show ?thesis
      by (simp add: listed_items_def listed_pages_def map_concat comp_def)
  qed
qed

lemma scandir_loop_paginated:
  "paginated_listing c b prefix (Some [sep]) tok rs \<Longrightarrow>
   tok = None \<or> (\<exists>t. tok = Some t \<and> t \<noteq> []) \<Longrightarrow> length rs \<le> n \<Longrightarrow>
   scandir_loop n c sep b prefix tok =
     (concat (map (scandir_page sep) (listed_pages rs)), Finished)"
proof (induction rs arbitrary: n tok)
  case Nil
  then show ?case by simp
next
  case (Cons r rs)
  from Cons.prems(3) obtain m where n: "n = Suc m" and m: "length rs \<le> m"
    by (cases n) auto
  from Cons.prems(1) have req: "client_list_blobs c b prefix (Some [sep]) tok = Inr r"
    and noerr: "pages_error r = None" by simp_all
  have arg: "page_token_arg tok = tok" using Cons.prems(2) by (rule page_token_arg_id)
  show ?case
  proof (cases "next_page_token r")
    case None
    with Cons.prems(1) have "rs = []" by simp
    with None req noerr arg n show ?thesis
      by (simp add: listed_pages_def)
  next
    case (Some t)
    with Cons.prems(1) have t: "t \<noteq> []" and rest: "paginated_listing c b prefix (Some [sep]) (Some t) rs"
      by simp_all
    have "scandir_loop m c sep b prefix (Some t) =
            (concat (map (scandir_page sep) (listed_pages rs)), Finished)"
      using Cons.IH[OF rest _ m] t by simp
    with Some req noerr arg n show ?thesis
      by (simp add: listed_pages_def)
  qed
qed

lemma list_blobs_loop_failed:
  "failed_listing c b prefix delimiter tok rs last_pages e \<Longrightarrow>
   tok = None \<or> (\<exists>t. tok = Some t \<and> t \<noteq> []) \<Longrightarrow> length rs < n \<Longrightarrow>
   list_blobs_loop n c bucket b prefix delimiter tok =
     (map (blob_of_item bucket) (concat (map items (listed_pages rs @ last_pages))), Raised e)"
proof (induction rs arbitrary: n tok)
  case Nil
  from Nil.prems(3) obtain m where n: "n = Suc m" by (cases n) auto
  have arg: "page_token_arg tok = tok" using Nil.prems(2) by (rule page_token_arg_id)
  show ?case
  proof (cases "client_list_blobs c b prefix delimiter tok")
    case (Inl e')
    with Nil.prems(1) arg n show ?thesis by (simp add: listed_pages_def)
  next
    case (Inr r)
    with Nil.prems(1) arg n show ?thesis
      by (simp add: listed_pages_def map_concat comp_def)
  qed
next
  case (Cons r rs)
  from Cons.prems(3) obtain m where n: "n = Suc m" and m: "length rs < m"
    by (cases n) auto
  from Cons.prems(1) have req: "client_list_blobs c b prefix delimiter tok = Inr r"
    and noerr: "pages_error r = None" by simp_all
  have arg: "page_token_arg tok = tok" using Cons.prems(2) by (rule page_token_arg_id)
  from Cons.prems(1) obtain t where tok': "next_page_token r = Some t" and t: "t \<noteq> []"
    and rest: "failed_listing c b prefix delimiter (Some t) rs last_pages e"
    by (cases "next_page_token r") auto
  have "list_blobs_loop m c bucket b prefix delimiter (Some t) =
          (map (blob_of_item bucket) (concat (map items (listed_pages rs @ last_pages))), Raised e)"
    using Cons.IH[OF rest _ m] t by simp
  with tok' req noerr arg n show ?case
    by (simp add: listed_pages_def map_concat comp_def)
qed

lemma scandir_loop_failed:
  "failed_listing c b prefix (Some [sep]) tok rs last_pages e \<Longrightarrow>
   tok = None \<or> (\<exists>t. tok = Some t \<and> t \<noteq> []) \<Longrightarrow> length rs < n \<Longrightarrow>
   scandir_loop n c sep b prefix tok =
     (concat (map (scandir_page sep) (listed_pages rs @ last_pages)), Raised e)"
proof (induction rs arbitrary: n tok)
  case Nil
  from Nil.prems(3) obtain m where n: "n = Suc m" by (cases n) auto
  have arg: "page_token_arg tok = tok" using Nil.prems(2) by (rule page_token_arg_id)
  show ?case
  proof (cases "client_list_blobs c b prefix (Some [sep]) tok")
    case (Inl e')
    with Nil.prems(1) arg n show ?thesis by (simp add: listed_pages_def)
  next
    case (Inr r)
    with Nil.prems(1) arg n show ?thesis by (simp add: listed_pages_def)
  qed
next
  case (Cons r rs)
  from Cons.prems(3) obtain m where n: "n = Suc m" and m: "length rs < m"
    by (cases n) auto
  from Cons.prems(1) have req: "client_list_blobs c b prefix (Some [sep]) tok = Inr r"
    and noerr: "pages_error r = None" by simp_all
  have arg: "page_token_arg tok = tok" using Cons.prems(2) by (rule page_token_arg_id)
  from Cons.prems(1) obtain t where tok': "next_page_token r = Some t" and t: "t \<noteq> []"
    and rest: "failed_listing c b prefix (Some [sep]) (Some t) rs last_pages e"
    by (cases "next_page_token r") auto
  have "scandir_loop m c sep b prefix (Some t) =
          (concat (map (scandir_page sep) (listed_pages rs @ last_pages)), Raised e)"
    using Cons.IH[OF rest _ m] t by simp
  with tok' req noerr arg n show ?case
    by (simp add: listed_pages_def)
qed

lemma exists_loop_iff:
  "exists_loop k sep objs \<longleftrightarrow>
     (\<exists>obj\<in>set objs. BlobGCS_name obj = k \<or> (\<exists>rest. BlobGCS_name obj = k @ sep # rest))"
  by (induction objs) (auto simp: startswith_iff)

text \<open>
  What one page contributes to \<^verbatim>\<open>scandir\<close>, written out: the directory entries of
  the common prefixes, then the file entries of the items, the empty names dropped.
\<close>

lemma scandir_page_eq:
  "scandir_page sep =
     (\<lambda>page.
        map (\<lambda>name. \<lparr>entry_name = name, is_dir = True, entry_size = None,
                      last_modified = None, entry_raw = None\<rparr>)
          (filter (\<lambda>name. name \<noteq> [])
             (map (\<lambda>folder. last_segment sep
                     (if endswith folder [sep] then butlast folder else folder))
                (prefixes page))) @
        map (\<lambda>item. \<lparr>entry_name = last_segment sep (nb_name item),
                      is_dir = False, entry_size = Some (nb_size item),
                      last_modified = Some (timestamp (nb_updated item)),
                      entry_raw = Some item\<rparr>)
          (filter (\<lambda>item. last_segment sep (nb_name item) \<noteq> []) (items page)))"
proof (rule ext)
  fix page :: "'a page"
  have "map dir_entry xs =
          map (\<lambda>name. \<lparr>entry_name = name, is_dir = True, entry_size = None,
                      last_modified = None, entry_raw = None :: 'a storage_Blob option\<rparr>) xs" for xs
    by (simp add: dir_entry_def)
  moreover have "map (folder_name sep) fs =
          map (\<lambda>folder. last_segment sep
                     (if endswith folder [sep] then butlast folder else folder)) fs" for fs
    by (simp add: folder_name_def)
  ultimately show "scandir_page sep page =
        map (\<lambda>name. \<lparr>entry_name = name, is_dir = True, entry_size = None,
                      last_modified = None, entry_raw = None\<rparr>)
          (filter (\<lambda>name. name \<noteq> [])
             (map (\<lambda>folder. last_segment sep
                     (if endswith folder [sep] then butlast folder else folder))
                (prefixes page))) @
        map (\<lambda>item. \<lparr>entry_name = last_segment sep (nb_name item),
                      is_dir = False, entry_size = Some (nb_size item),
                      last_modified = Some (timestamp (nb_updated item)),
                      entry_raw = Some item\<rparr>)
          (filter (\<lambda>item. last_segment sep (nb_name item) \<noteq> []) (items page))"
    by (simp only: scandir_page_def scandir_folders_eq scandir_items_eq)
qed





text \<open>
  The bound only cuts a run off: with more requests allowed the generator yields what it
  yielded before and possibly more, and a run that returned or raised is unchanged. A
  call of \<^verbatim>\<open>exists\<close> that has returned returns the same with any larger bound.
\<close>

lemma list_blobs_loop_more_fuel:
  "list_blobs_loop n c bucket b prefix delimiter tok = (ys, st) \<Longrightarrow>
   \<exists>more st'. list_blobs_loop (n + k) c bucket b prefix delimiter tok = (ys @ more, st') \<and>
       (st \<noteq> Pending \<longrightarrow> more = [] \<and> st' = st)"
proof (induction n arbitrary: tok ys st)
  case 0
  then show ?case by (cases "list_blobs_loop k c bucket b prefix delimiter tok") auto
next
  case (Suc n)
  show ?case
  proof (cases "client_list_blobs c b prefix delimiter (page_token_arg tok)")
    case (Inl e)
    with Suc.prems show ?thesis by auto
  next
    case (Inr r)
    show ?thesis
    proof (cases "pages_error r")
      case (Some e)
      with Inr Suc.prems show ?thesis by auto
    next
      case None
      show ?thesis
      proof (cases "next_page_token r")
        case no_token: None
        with Inr None Suc.prems show ?thesis by auto
      next
        case (Some t)
        obtain zs st0 where rest: "list_blobs_loop n c bucket b prefix delimiter (Some t) = (zs, st0)"
          by (cases "list_blobs_loop n c bucket b prefix delimiter (Some t)")
        from Suc.IH[OF rest] obtain more st' where
          more: "list_blobs_loop (n + k) c bucket b prefix delimiter (Some t) = (zs @ more, st')"
          and fin: "st0 \<noteq> Pending \<longrightarrow> more = [] \<and> st' = st0"
          by blast
        from Inr None Some rest Suc.prems have "st = st0"
          and "ys = concat (map (\<lambda>page. map (blob_of_item bucket) (items page)) (pages r)) @ zs"
          by auto
        with Inr None Some more fin show ?thesis by auto
      qed
    qed
  qed
qed

lemma scandir_loop_more_fuel:
  "scandir_loop n c sep b prefix tok = (ys, st) \<Longrightarrow>
   \<exists>more st'. scandir_loop (n + k) c sep b prefix tok = (ys @ more, st') \<and>
       (st \<noteq> Pending \<longrightarrow> more = [] \<and> st' = st)"
proof (induction n arbitrary: tok ys st)
  case 0
  then show ?case by (cases "scandir_loop k c sep b prefix tok") auto
next
  case (Suc n)
  show ?case
  proof (cases "client_list_blobs c b prefix (Some [sep]) (page_token_arg tok)")
    case (Inl e)
    with Suc.prems show ?thesis by auto
  next
    case (Inr r)
    show ?thesis
    proof (cases "pages_error r")
      case (Some e)
      with Inr Suc.prems show ?thesis by auto
    next
      case None
      show ?thesis
      proof (cases "next_page_token r")
        case no_token: None
        with Inr None Suc.prems show ?thesis by auto
      next
        case (Some t)
        obtain zs st0 where rest: "scandir_loop n c sep b prefix (Some t) = (zs, st0)"
          by (cases "scandir_loop n c sep b prefix (Some t)")
        from Suc.IH[OF rest] obtain more st' where
          more: "scandir_loop (n + k) c sep b prefix (Some t) = (zs @ more, st')"
          and fin: "st0 \<noteq> Pending \<longrightarrow> more = [] \<and> st' = st0"
          by blast
        from Inr None Some rest Suc.prems have "st = st0"
          and "ys = concat (map (scandir_page sep) (pages r)) @ zs"
          by auto
        with Inr None Some more fin show ?thesis by auto
      qed
    qed
  qed
qed

lemma exists_more_fuel:
  assumes "exists has_gcs n self path = Some result"
  shows "exists has_gcs (n + k) self path = Some result"
proof -
  obtain objs st where run: "list_blobs n self path None None False = (objs, st)"
    by (cases "list_blobs n self path None None False")
  have "\<exists>more st'. list_blobs (n + k) self path None None False = (objs @ more, st') \<and>
          (st \<noteq> Pending \<longrightarrow> more = [] \<and> st' = st)"
  proof (cases "client self")
    case None
    with run show ?thesis by (auto simp: list_blobs_def)
  next
    case (Some c)
    show ?thesis
    proof (cases "lookup_bucket self path")
      case (Inl e)
      with Some run show ?thesis by (auto simp: list_blobs_def)
    next
      case (Inr found)
      show ?thesis
      proof (cases found)
        case None
        with Some Inr run show ?thesis by (auto simp: list_blobs_def)
      next
        case (Some bucket)
        with \<open>client self = Some c\<close> Inr run
        have "list_blobs_loop n c bucket (root path) None None None = (objs, st)"
          by (simp add: list_blobs_def)
        from list_blobs_loop_more_fuel[OF this, of k] Some \<open>client self = Some c\<close> Inr
        show ?thesis by (simp add: list_blobs_def)
      qed
    qed
  qed
  then obtain more st' where
    more: "list_blobs (n + k) self path None None False = (objs @ more, st')"
    and fin: "st \<noteq> Pending \<longrightarrow> more = [] \<and> st' = st" by blast
  have app: "exists_loop ky sp xs \<Longrightarrow> exists_loop ky sp (xs @ zs)" for ky sp and xs zs :: "'a BlobGCS list"
    by (induction xs) auto
  show ?thesis
  proof (cases "exists_loop (str_key path) (flavour_sep path) objs")
    case True
    with assms run have "result = Inr True" by (simp add: exists_def)
    with True more app show ?thesis by (simp add: exists_def)
  next
    case False
    with assms run have "st \<noteq> Pending" by (auto simp: exists_def)
    with fin more have "list_blobs (n + k) self path None None False = (objs, st)" by simp
    with assms run show ?thesis by (simp add: exists_def)
  qed
qed

subsection \<open>\<^verbatim>\<open>exists\<close>\<close>

text \<open>
  What \<^verbatim>\<open>exists\<close> computes when the listing runs to its end: the comparison is with
  \<open>str_key\<close>, the text of \<^verbatim>\<open>str(path.key)\<close>.
\<close>

lemma exists_finished_listing:
  assumes "client self = Some c"
    and "client_bucket c (root path) = Inr (Some native_bucket)"
    and "paginated_listing c (root path) None None None rs"
    and "length rs \<le> n"
  shows "exists has_gcs n self path =
           Some (Inr (\<exists>x\<in>set (map nb_name (listed_items rs)).
                        x = str_key path \<or>
                        (\<exists>rest. x = str_key path @ flavour_sep path # rest)))"
proof -
  let ?bucket = "\<lparr>BucketGCS_name = root path, BucketGCS_bucket = native_bucket\<rparr>"
  have "list_blobs n self path None None False =
          (map (blob_of_item ?bucket) (listed_items rs), Finished)"
    using assms list_blobs_loop_paginated[of c "root path" None None None rs n ?bucket]
    by (simp add: list_blobs_def lookup_bucket_def)
  moreover have
    "exists_loop (str_key path) (flavour_sep path) (map (blob_of_item ?bucket) (listed_items rs))
      \<longleftrightarrow> (\<exists>x\<in>set (map nb_name (listed_items rs)).
                        x = str_key path \<or>
                        (\<exists>rest. x = str_key path @ flavour_sep path # rest))"
    by (simp add: exists_loop_iff blob_of_item_def)
  ultimately show ?thesis
    by (simp add: exists_def)
qed

text \<open>
  Without the SDK the constructor leaves the instance without client, the assertion of
  \<^verbatim>\<open>list_blobs\<close> fails inside the \<^verbatim>\<open>try\<close> block, and the handler's own \<^verbatim>\<open>NameError\<close> is
  what the caller gets.
\<close>

lemma exists_without_sdk:
  "exists False n (BucketClientGCS_init None client_arg) path =
     Some (Inl (NameError ''gcs_errors''))"
  by (simp add: exists_def list_blobs_def BucketClientGCS_init_def)

text \<open>
  C1, as amended. For a path that has a key (a path below the bucket root) and whose root
  names an existing bucket, when the listing of the bucket (no prefix, no delimiter) runs
  to its end through the responses \<open>rs\<close>, \<^verbatim>\<open>exists\<close> returns, and returns true exactly
  when some listed object key equals the path's key or starts with the key followed by
  the separator; it returns false when no key does. A bound of \<open>length rs\<close> requests is
  enough.
\<close>

theorem exists_iff_object_or_directory:
  assumes "client self = Some c"
    and "client_bucket c (root path) = Inr (Some native_bucket)"
    and "key path = Some k"
    and "paginated_listing c (root path) None None None rs"
    and "length rs \<le> n"
  shows "exists has_gcs n self path =
           Some (Inr (\<exists>x\<in>set (map nb_name (listed_items rs)).
                        x = k \<or> (\<exists>rest. x = k @ flavour_sep path # rest)))"
  using exists_finished_listing[OF assms(1,2,4,5), of has_gcs] assms(3)
  by (simp add: str_key_def)

theorem exists_iff_object_or_directory_witness:
  "key (demo_path ''b'' ''a'') = Some ''a'' \<and>
   paginated_listing demo_client ''b'' None None None [demo_response_1, demo_response_2] \<and>
   exists True 2 \<lparr>client = Some demo_client\<rparr> (demo_path ''b'' ''a'') = Some (Inr True) \<and>
   exists True 2 \<lparr>client = Some demo_client\<rparr> (demo_path ''b'' ''f.txt'') = Some (Inr True) \<and>
   exists True 2 \<lparr>client = Some demo_client\<rparr> (demo_path ''b'' ''f'') = Some (Inr False)"
proof -
  have h1: "client \<lparr>client = Some demo_client\<rparr> = Some demo_client" by simp
  have h2: "client_bucket demo_client (root (demo_path ''b'' k)) = Inr (Some \<lparr>sb_name = ''b''\<rparr>)" for k
    by (simp add: demo_client_def sdk_bucket_def demo_path_def demo_root_def)
  have h3: "key (demo_path ''b'' k) = Some k" for k
    by (simp add: demo_path_def demo_root_def)
  have h4: "paginated_listing demo_client (root (demo_path ''b'' k)) None None None
              [demo_response_1, demo_response_2]" for k
    by (simp add: demo_client_def sdk_bucket_def demo_path_def demo_root_def demo_list_blobs_def demo_response_1_def
        demo_response_2_def)
  have h5: "length [demo_response_1, demo_response_2] \<le> 2" by simp
  show ?thesis
    using h3[of "''a''"] h4[of "''a''"]
      exists_iff_object_or_directory[OF h1 h2[of "''a''"] h3[of "''a''"] h4[of "''a''"] h5,
        where has_gcs = True]
      exists_iff_object_or_directory[OF h1 h2[of "''f.txt''"] h3[of "''f.txt''"]
        h4[of "''f.txt''"] h5, where has_gcs = True]
      exists_iff_object_or_directory[OF h1 h2[of "''f''"] h3[of "''f''"] h4[of "''f''"] h5,
        where has_gcs = True]
    by (simp add: demo_path_def demo_root_def listed_items_def listed_pages_def demo_response_1_def
        demo_response_2_def demo_item_def)
qed

text \<open>
  The claim C1 as stated fails at a bucket root. The bucket \<open>b\<close> exists and holds the one
  object \<open>None/x\<close>; the path is the root of \<open>b\<close>, so it has no key, and no object key is
  empty or starts with the separator. \<^verbatim>\<open>exists\<close> returns true all the same: it compares
  with the text \<open>None\<close>.
\<close>

theorem exists_at_bucket_root:
  "root (demo_root ''b'') = ''b'' \<and> key (demo_root ''b'') = None \<and>
   client_bucket none_client ''b'' = Inr (Some \<lparr>sb_name = ''b''\<rparr>) \<and>
   paginated_listing none_client ''b'' None None None [none_response] \<and>
   map nb_name (listed_items [none_response]) = [''None/x''] \<and>
   exists True (Suc 0) \<lparr>client = Some none_client\<rparr> (demo_root ''b'') = Some (Inr True)"
  by (simp add: exists_def list_blobs_def lookup_bucket_def none_client_def sdk_bucket_def
      none_response_def demo_root_def demo_item_def page_token_arg_def blob_of_item_def
      str_key_def startswith_def listed_items_def listed_pages_def)

text \<open>
  C8. \<^verbatim>\<open>exists\<close> returns true as soon as an object yielded by the listing matches,
  whatever the listing does after it (it may raise, or not have ended). When the
  listing raises a client error and no object yielded before the error matches,
  \<^verbatim>\<open>exists\<close> returns false and does not raise.
\<close>

theorem exists_first_match_or_client_error:
  assumes "list_blobs n self path None None False = (objs, st)"
  shows
    "((\<exists>obj\<in>set objs. BlobGCS_name obj = str_key path \<or>
          (\<exists>rest. BlobGCS_name obj = str_key path @ flavour_sep path # rest)) \<longrightarrow>
        exists has_gcs n self path = Some (Inr True)) \<and>
     (\<not> (\<exists>obj\<in>set objs. BlobGCS_name obj = str_key path \<or>
            (\<exists>rest. BlobGCS_name obj = str_key path @ flavour_sep path # rest)) \<and>
      st = Raised (GCSClientError msg code) \<longrightarrow>
        exists has_gcs n self path = Some (Inr False))"
  using assms by (simp add: exists_def exists_loop_iff)

theorem exists_first_match_or_client_error_witness:
  "list_blobs (Suc 0) \<lparr>client = Some flaky_client\<rparr> (demo_path ''b'' ''f.txt'') None None False =
     ([blob_of_item \<lparr>BucketGCS_name = ''b'', BucketGCS_bucket = \<lparr>sb_name = ''b''\<rparr>\<rparr>
         (demo_item ''f.txt'' 5 12)],
      Raised (GCSClientError ''Too Many Requests'' 429)) \<and>
   exists True (Suc 0) \<lparr>client = Some flaky_client\<rparr> (demo_path ''b'' ''f.txt'') = Some (Inr True) \<and>
   exists True (Suc 0) \<lparr>client = Some flaky_client\<rparr> (demo_path ''b'' ''g.txt'') = Some (Inr False) \<and>
   list_blobs (Suc 0) \<lparr>client = Some failing_client\<rparr> (demo_path ''b'' ''f.txt'') None None False =
     ([], Raised (GCSClientError ''Forbidden'' 403)) \<and>
   exists True (Suc 0) \<lparr>client = Some failing_client\<rparr> (demo_path ''b'' ''f.txt'') = Some (Inr False)"
proof -
  have k: "list_blobs (Suc 0) \<lparr>client = Some flaky_client\<rparr> (demo_path ''b'' x) None None False =
     ([blob_of_item \<lparr>BucketGCS_name = ''b'', BucketGCS_bucket = \<lparr>sb_name = ''b''\<rparr>\<rparr>
         (demo_item ''f.txt'' 5 12)],
      Raised (GCSClientError ''Too Many Requests'' 429))" for x
    by (simp add: list_blobs_def lookup_bucket_def flaky_client_def sdk_bucket_def demo_path_def demo_root_def
        page_token_arg_def)
  have f: "list_blobs (Suc 0) \<lparr>client = Some failing_client\<rparr> (demo_path ''b'' ''f.txt'') None None False =
     ([], Raised (GCSClientError ''Forbidden'' 403))"
    by (simp add: list_blobs_def lookup_bucket_def failing_client_def sdk_bucket_def demo_path_def demo_root_def
        page_token_arg_def)
  show ?thesis
    using k[of "''f.txt''"] f
      exists_first_match_or_client_error[OF k, where x1 = "''f.txt''"
        and msg = "''Too Many Requests''" and code = 429 and has_gcs = True]
      exists_first_match_or_client_error[OF k, where x1 = "''g.txt''"
        and msg = "''Too Many Requests''" and code = 429 and has_gcs = True]
      exists_first_match_or_client_error[OF f, where msg = "''Forbidden''" and code = 403
        and has_gcs = True]
    by (simp add: blob_of_item_def demo_item_def demo_path_def demo_root_def str_key_def)
qed

subsection \<open>Buckets\<close>

text \<open>
  The two lookups, branch by branch. With a handle both return the wrapper; the branch
  for \<^verbatim>\<open>None\<close> makes \<^verbatim>\<open>get_bucket\<close> raise \<^verbatim>\<open>FileNotFoundError\<close> and \<^verbatim>\<open>lookup_bucket\<close> return
  \<^verbatim>\<open>None\<close>. The SDK's \<^verbatim>\<open>Client.bucket\<close> gives a handle for every name, so with it the
  second branch is never taken.
\<close>

lemma lookups_of_handle:
  assumes "client self = Some c" and "client_bucket c (root path) = Inr (Some native_bucket)"
  shows "get_bucket self path =
           Inr \<lparr>BucketGCS_name = root path, BucketGCS_bucket = native_bucket\<rparr> \<and>
         lookup_bucket self path =
           Inr (Some \<lparr>BucketGCS_name = root path, BucketGCS_bucket = native_bucket\<rparr>)"
  using assms by (simp add: get_bucket_def lookup_bucket_def)

lemma lookups_of_None:
  assumes "client self = Some c" and "client_bucket c (root path) = Inr None"
  shows "get_bucket self path =
           Inl (FileNotFoundError (''Bucket '' @ root path @ '' does not exist!'')) \<and>
         lookup_bucket self path = Inr None"
  using assms by (simp add: get_bucket_def lookup_bucket_def)

lemma lookups_with_sdk_bucket:
  assumes "client self = Some c" and "client_bucket c = sdk_bucket"
  shows "get_bucket self path =
           Inr \<lparr>BucketGCS_name = root path, BucketGCS_bucket = \<lparr>sb_name = root path\<rparr>\<rparr> \<and>
         lookup_bucket self path =
           Inr (Some \<lparr>BucketGCS_name = root path, BucketGCS_bucket = \<lparr>sb_name = root path\<rparr>\<rparr>)"
  using assms by (simp add: get_bucket_def lookup_bucket_def sdk_bucket_def)

text \<open>
  C2. The claim is that \<^verbatim>\<open>get_bucket\<close> raises a not-found condition when the bucket does
  not exist and that \<^verbatim>\<open>lookup_bucket\<close> then returns an absent value. The code does
  neither: the store has the buckets \<open>b\<close> and \<open>c\<close> only and answers a listing of \<open>missing\<close>
  with the client error of a bucket that is not found, and for the path \<open>missing/f.txt\<close>
  \<^verbatim>\<open>get_bucket\<close> returns a wrapper of the handle that \<^verbatim>\<open>client.bucket\<close> has built, and
  \<^verbatim>\<open>lookup_bucket\<close> returns the same wrapper.
\<close>

theorem get_bucket_of_missing_bucket:
  "map sb_name (fst (client_list_buckets demo_client)) = [''b'', ''c''] \<and>
   client_list_blobs demo_client ''missing'' None None None =
     Inl (GCSClientError ''Not Found'' 404) \<and>
   client_bucket demo_client ''missing'' = Inr (Some \<lparr>sb_name = ''missing''\<rparr>) \<and>
   get_bucket \<lparr>client = Some demo_client\<rparr> (demo_path ''missing'' ''f.txt'') =
     Inr \<lparr>BucketGCS_name = ''missing'', BucketGCS_bucket = \<lparr>sb_name = ''missing''\<rparr>\<rparr> \<and>
   lookup_bucket \<lparr>client = Some demo_client\<rparr> (demo_path ''missing'' ''f.txt'') =
     Inr (Some \<lparr>BucketGCS_name = ''missing'', BucketGCS_bucket = \<lparr>sb_name = ''missing''\<rparr>\<rparr>)"
  by (simp add: get_bucket_def lookup_bucket_def demo_client_def sdk_bucket_def
      demo_list_blobs_def demo_path_def demo_root_def)

subsection \<open>Listings\<close>

text \<open>
  C3, as amended. A listing call (\<^verbatim>\<open>list_blobs\<close>, or \<^verbatim>\<open>scandir\<close> on a path with a root)
  whose bucket lookup has given a bucket does not catch an error of the fetch. Wherever
  the fetch raises (at the first list request, at a request with a continuation token,
  or while the pages of a response are fetched), the call yields the entries of the pages
  received before the failure, in order, and then raises the same exception to its
  caller. A bound of more requests than there were complete responses is enough.
\<close>

theorem listing_fetch_error_propagates:
  assumes "client self = Some c" and "root p \<noteq> []"
    and "client_bucket c (root p) = Inr (Some native_bucket)"
  shows
    "(failed_listing c (root p) prefix delimiter None rs last_pages e \<and> length rs < n \<longrightarrow>
        list_blobs n self p prefix delimiter include_dirs =
          (map (blob_of_item \<lparr>BucketGCS_name = root p, BucketGCS_bucket = native_bucket\<rparr>)
             (concat (map items (concat (map pages rs) @ last_pages))), Raised e)) \<and>
     (failed_listing c (root p) prefix (Some [flavour_sep p]) None rs last_pages e \<and>
      length rs < n \<longrightarrow>
        scandir n self (Some p) prefix delimiter include_raw =
          (concat (map (scandir_page (flavour_sep p)) (concat (map pages rs) @ last_pages)),
           Raised e))"
proof (intro conjI impI)
  assume "failed_listing c (root p) prefix delimiter None rs last_pages e \<and> length rs < n"
  then show "list_blobs n self p prefix delimiter include_dirs =
          (map (blob_of_item \<lparr>BucketGCS_name = root p, BucketGCS_bucket = native_bucket\<rparr>)
             (concat (map items (concat (map pages rs) @ last_pages))), Raised e)"
    using assms list_blobs_loop_failed[of c "root p" prefix delimiter None rs last_pages e n]
    by (simp add: list_blobs_def lookup_bucket_def listed_pages_def)
next
  assume "failed_listing c (root p) prefix (Some [flavour_sep p]) None rs last_pages e \<and>
      length rs < n"
  then show "scandir n self (Some p) prefix delimiter include_raw =
          (concat (map (scandir_page (flavour_sep p)) (concat (map pages rs) @ last_pages)),
           Raised e)"
    using assms scandir_loop_failed[of c "root p" prefix "flavour_sep p" None rs last_pages e n]
    by (simp add: scandir_def lookup_bucket_def listed_pages_def)
qed

theorem listing_fetch_error_propagates_witness:
  "failed_listing throttled_client ''b'' None None None [throttled_response] []
     (GCSClientError ''Too Many Requests'' 429) \<and>
   map BlobGCS_name
     (fst (list_blobs 2 \<lparr>client = Some throttled_client\<rparr> (demo_root ''b'') None None False)) =
     [''f.txt''] \<and>
   snd (list_blobs 2 \<lparr>client = Some throttled_client\<rparr> (demo_root ''b'') None None False) =
     Raised (GCSClientError ''Too Many Requests'' 429) \<and>
   failed_listing throttled_client ''b'' None (Some ''/'') None [throttled_response] []
     (GCSClientError ''Too Many Requests'' 429) \<and>
   map entry_name
     (fst (scandir 2 \<lparr>client = Some throttled_client\<rparr> (Some (demo_root ''b'')) None None False)) =
     [''f.txt''] \<and>
   snd (scandir 2 \<lparr>client = Some throttled_client\<rparr> (Some (demo_root ''b'')) None None False) =
     Raised (GCSClientError ''Too Many Requests'' 429)"
proof -
  have h1: "client \<lparr>client = Some throttled_client\<rparr> = Some throttled_client" by simp
  have h2: "root (demo_root ''b'') \<noteq> []" by (simp add: demo_root_def)
  have h3: "client_bucket throttled_client (root (demo_root ''b'')) = Inr (Some \<lparr>sb_name = ''b''\<rparr>)"
    by (simp add: throttled_client_def sdk_bucket_def demo_root_def)
  have f: "failed_listing throttled_client ''b'' None d None [throttled_response] []
     (GCSClientError ''Too Many Requests'' 429)" for d
    by (simp add: throttled_client_def throttled_response_def)
  have l: "length [throttled_response] < 2" by simp
  show ?thesis
    using f[of None] f[of "Some ''/''"] l
      listing_fetch_error_propagates[OF h1 h2 h3, where prefix = None and delimiter = None
        and rs = "[throttled_response]" and last_pages = "[]"
        and e = "GCSClientError ''Too Many Requests'' 429" and n = 2
        and include_raw = False and include_dirs = False]
    by (simp add: demo_root_def throttled_response_def blob_of_item_def demo_item_def
        scandir_page_def last_segment_def Let_def)
qed

text \<open>
  The claim C3 as stated fails: with a store whose list request raises a client error
  both listings raise it, and with a store whose second page fails \<^verbatim>\<open>scandir\<close> has yielded
  two entries before it raises.
\<close>

theorem listing_propagates_client_error:
  "client_list_blobs failing_client ''b'' None None None = Inl (GCSClientError ''Forbidden'' 403) \<and>
   list_blobs (Suc 0) \<lparr>client = Some failing_client\<rparr> (demo_root ''b'') None None False =
     ([], Raised (GCSClientError ''Forbidden'' 403)) \<and>
   client_list_blobs failing_client ''b'' None (Some ''/'') None =
     Inl (GCSClientError ''Forbidden'' 403) \<and>
   scandir (Suc 0) \<lparr>client = Some failing_client\<rparr> (Some (demo_root ''b'')) None None False =
     ([], Raised (GCSClientError ''Forbidden'' 403)) \<and>
   scandir (Suc 0) \<lparr>client = Some flaky_client\<rparr> (Some (demo_root ''b'')) None None False =
     ([\<lparr>entry_name = ''a'', is_dir = True, entry_size = None, last_modified = None,
        entry_raw = None\<rparr>,
       \<lparr>entry_name = ''f.txt'', is_dir = False, entry_size = Some 5, last_modified = Some 12,
        entry_raw = Some (demo_item ''f.txt'' 5 12)\<rparr>],
      Raised (GCSClientError ''Too Many Requests'' 429))"
  by (simp add: scandir_def list_blobs_def lookup_bucket_def failing_client_def sdk_bucket_def
      flaky_client_def demo_path_def demo_root_def page_token_arg_def scandir_page_def folder_name_def
      last_segment_def endswith_def dir_entry_def demo_item_def Let_def)



text \<open>
  C5. Called with no path or with a path whose root is empty, \<^verbatim>\<open>scandir\<close> yields one
  directory entry per bucket that \<^verbatim>\<open>list_buckets\<close> gives, in that order, and then stops
  as the bucket listing does (it returns when the listing ends, and the listing's
  exception, if any, comes after the entries); the bound, the prefix, the delimiter and
  \<^verbatim>\<open>include_raw\<close> do not change the outcome.
\<close>

theorem scandir_without_root_lists_buckets:
  assumes "client self = Some c"
    and "path = None \<or> (\<exists>p. path = Some p \<and> root p = [])"
  shows "scandir n self path prefix delimiter include_raw =
           (map (\<lambda>bucket. \<lparr>entry_name = sb_name bucket, is_dir = True, entry_size = None,
                           last_modified = None, entry_raw = None\<rparr>)
              (fst (client_list_buckets c)),
            (case snd (client_list_buckets c) of None \<Rightarrow> Finished | Some e \<Rightarrow> Raised e)) \<and>
         scandir n self path prefix delimiter include_raw =
           scandir n' self path prefix' delimiter' include_raw'"
proof -
  have "scandir m self path pr de ir = scandir_buckets self" for m pr de ir
    using assms by (auto simp: scandir_def)
  moreover have "scandir_buckets self =
           (map (\<lambda>bucket. \<lparr>entry_name = sb_name bucket, is_dir = True, entry_size = None,
                           last_modified = None, entry_raw = None\<rparr>)
              (fst (client_list_buckets c)),
            (case snd (client_list_buckets c) of None \<Rightarrow> Finished | Some e \<Rightarrow> Raised e))"
    using assms(1)
    by (simp add: scandir_buckets_def list_buckets_def dir_entry_def split: prod.split)
  ultimately show ?thesis by simp
qed

theorem scandir_without_root_lists_buckets_witness:
  "scandir 0 \<lparr>client = Some demo_client\<rparr> (Some (demo_root [])) (Some ''a/'') (Some ''x'') False =
     ([\<lparr>entry_name = ''b'', is_dir = True, entry_size = None, last_modified = None,
        entry_raw = None\<rparr>,
       \<lparr>entry_name = ''c'', is_dir = True, entry_size = None, last_modified = None,
        entry_raw = None\<rparr>], Finished) \<and>
   scandir 0 \<lparr>client = Some demo_client\<rparr> None None None False =
     scandir 0 \<lparr>client = Some demo_client\<rparr> (Some (demo_root [])) (Some ''a/'') (Some ''x'') False"
proof -
  have h1: "client \<lparr>client = Some demo_client\<rparr> = Some demo_client" by simp
  have h2: "Some (demo_root []) = None \<or>
            (\<exists>p. Some (demo_root []) = Some p \<and> root p = [])"
    by (simp add: demo_path_def demo_root_def)
  have h3: "(None :: PurePathy option) = None \<or> (\<exists>p. None = Some p \<and> root p = [])" by simp
  show ?thesis
    using scandir_without_root_lists_buckets[OF h1 h2, of 0 "Some ''a/''" "Some ''x''" False]
      scandir_without_root_lists_buckets[OF h1 h3, of 0 None None False]
    by (simp add: demo_client_def sdk_bucket_def)
qed

text \<open>
  C6, as amended. For a path with a root whose bucket exists, when the listing with the
  path's separator as delimiter runs to its end, \<^verbatim>\<open>scandir\<close> yields, page by page in the
  order fetched: for each common prefix, stripped of one trailing separator, a directory
  entry named by its last segment, skipped when that segment is empty; then for each
  item whose key has a non-empty last segment a file entry with that segment as name,
  the item's size, the timestamp of its modification time and the item itself. An item
  whose last segment is empty gives no entry.
\<close>

theorem scandir_entries_of_pages:
  assumes "client self = Some c"
    and "root p \<noteq> []"
    and "client_bucket c (root p) = Inr (Some native_bucket)"
    and "paginated_listing c (root p) prefix (Some [flavour_sep p]) None rs"
    and "length rs \<le> n"
  shows "scandir n self (Some p) prefix delimiter include_raw =
           (concat (map (\<lambda>page.
                      map (\<lambda>name. \<lparr>entry_name = name, is_dir = True, entry_size = None,
                                    last_modified = None, entry_raw = None\<rparr>)
                        (filter (\<lambda>name. name \<noteq> [])
                           (map (\<lambda>folder. last_segment (flavour_sep p)
                                   (if endswith folder [flavour_sep p] then butlast folder
                                    else folder))
                              (prefixes page))) @
                      map (\<lambda>item. \<lparr>entry_name = last_segment (flavour_sep p) (nb_name item),
                                    is_dir = False, entry_size = Some (nb_size item),
                                    last_modified = Some (timestamp (nb_updated item)),
                                    entry_raw = Some item\<rparr>)
                        (filter (\<lambda>item. last_segment (flavour_sep p) (nb_name item) \<noteq> [])
                           (items page)))
                    (concat (map pages rs))),
            Finished)"
proof -
  have "scandir n self (Some p) prefix delimiter include_raw =
          scandir_loop n c (flavour_sep p) (root p) prefix None"
    using assms(1-3) by (simp add: scandir_def lookup_bucket_def)
  also have "\<dots> = (concat (map (scandir_page (flavour_sep p)) (listed_pages rs)), Finished)"
    using assms(4,5) by (simp add: scandir_loop_paginated)
  finally show ?thesis
    by (simp only: listed_pages_def scandir_page_eq)
qed

theorem scandir_entries_of_pages_witness:
  "paginated_listing demo_client ''b'' None (Some ''/'') None [demo_response_top] \<and>
   scandir (Suc 0) \<lparr>client = Some demo_client\<rparr> (Some (demo_root ''b'')) None None False =
     ([\<lparr>entry_name = ''a'', is_dir = True, entry_size = None, last_modified = None,
        entry_raw = None\<rparr>,
       \<lparr>entry_name = ''f.txt'', is_dir = False, entry_size = Some 5, last_modified = Some 12,
        entry_raw = Some (demo_item ''f.txt'' 5 12)\<rparr>], Finished)"
proof -
  have h1: "client \<lparr>client = Some demo_client\<rparr> = Some demo_client" by simp
  have h2: "root (demo_root ''b'') \<noteq> []" by (simp add: demo_path_def demo_root_def)
  have h3: "client_bucket demo_client (root (demo_root ''b'')) = Inr (Some \<lparr>sb_name = ''b''\<rparr>)"
    by (simp add: demo_client_def sdk_bucket_def demo_path_def demo_root_def)
  have h4: "paginated_listing demo_client (root (demo_root ''b'')) None
              (Some [flavour_sep (demo_root ''b'')]) None [demo_response_top]"
    by (simp add: demo_client_def sdk_bucket_def demo_path_def demo_root_def demo_list_blobs_def demo_response_top_def)
  have h5: "length [demo_response_top] \<le> Suc 0" by simp
  show ?thesis
    using h4 scandir_entries_of_pages[OF h1 h2 h3 h4 h5, of None False]
    by (simp add: demo_path_def demo_root_def demo_response_top_def demo_item_def last_segment_def
        endswith_def)
qed

text \<open>
  The claim C6 as stated fails: listing under the prefix \<open>a/\<close>, the store returns the
  three items \<open>a/\<close>, \<open>a/b.txt\<close> and \<open>a/c.txt\<close> in one page, and \<^verbatim>\<open>scandir\<close> yields two
  file entries; the item \<open>a/\<close> becomes none.
\<close>

theorem scandir_skips_item_with_empty_name:
  "client_list_blobs demo_client ''b'' (Some ''a/'') (Some ''/'') None =
     Inr \<lparr>pages = [\<lparr>prefixes = [],
                    items = [demo_item ''a/'' 0 9, demo_item ''a/b.txt'' 3 10,
                             demo_item ''a/c.txt'' 4 11]\<rparr>],
          pages_error = None, next_page_token = None\<rparr> \<and>
   scandir (Suc 0) \<lparr>client = Some demo_client\<rparr> (Some (demo_path ''b'' ''a'')) (Some ''a/'') None False =
     ([\<lparr>entry_name = ''b.txt'', is_dir = False, entry_size = Some 3, last_modified = Some 10,
        entry_raw = Some (demo_item ''a/b.txt'' 3 10)\<rparr>,
       \<lparr>entry_name = ''c.txt'', is_dir = False, entry_size = Some 4, last_modified = Some 11,
        entry_raw = Some (demo_item ''a/c.txt'' 4 11)\<rparr>], Finished)"
  by (simp add: scandir_def lookup_bucket_def demo_client_def sdk_bucket_def demo_path_def demo_root_def
        demo_list_blobs_def demo_response_a_def demo_item_def page_token_arg_def
        scandir_page_def last_segment_def Let_def)

text \<open>
  C7. For a path whose bucket exists, when the listing runs to its end through the
  responses \<open>rs\<close>, \<^verbatim>\<open>list_blobs\<close> yields one record per item of every page, in the order
  of the responses, of the pages in a response and of the items in a page, and then
  returns; the common prefixes of the pages play no part. Each record carries the bucket
  wrapper, the owner, the full key, the size, the timestamp of the modification time and
  the item itself.
\<close>

theorem list_blobs_one_record_per_object:
  assumes "client self = Some c"
    and "client_bucket c (root path) = Inr (Some native_bucket)"
    and "paginated_listing c (root path) prefix delimiter None rs"
    and "length rs \<le> n"
  shows "list_blobs n self path prefix delimiter include_dirs =
           (map (\<lambda>item.
                   \<lparr>BlobGCS_bucket =
                      Wrapper \<lparr>BucketGCS_name = root path, BucketGCS_bucket = native_bucket\<rparr>,
                    BlobGCS_owner = nb_owner item,
                    BlobGCS_name = nb_name item,
                    BlobGCS_raw = Some item,
                    BlobGCS_size = nb_size item,
                    BlobGCS_updated = timestamp (nb_updated item)\<rparr>)
              (concat (map items (concat (map pages rs)))),
            Finished)"
proof -
  let ?bucket = "\<lparr>BucketGCS_name = root path, BucketGCS_bucket = native_bucket\<rparr>"
  have "list_blobs n self path prefix delimiter include_dirs =
          (map (blob_of_item ?bucket) (listed_items rs), Finished)"
    using assms list_blobs_loop_paginated[of c "root path" prefix delimiter None rs n ?bucket]
    by (simp add: list_blobs_def lookup_bucket_def)
  then show ?thesis
    by (simp add: listed_items_def listed_pages_def blob_of_item_def)
qed

theorem list_blobs_one_record_per_object_witness:
  "paginated_listing demo_client ''b'' None None None [demo_response_1, demo_response_2] \<and>
   map BlobGCS_name (fst (list_blobs 2 \<lparr>client = Some demo_client\<rparr> (demo_root ''b'') None None False)) =
     [''a/'', ''a/b.txt'', ''a/c.txt'', ''f.txt''] \<and>
   map BlobGCS_updated (fst (list_blobs 2 \<lparr>client = Some demo_client\<rparr> (demo_root ''b'') None None False)) =
     [9, 10, 11, 12] \<and>
   snd (list_blobs 2 \<lparr>client = Some demo_client\<rparr> (demo_root ''b'') None None False) = Finished"
proof -
  have h1: "client \<lparr>client = Some demo_client\<rparr> = Some demo_client" by simp
  have h2: "client_bucket demo_client (root (demo_root ''b'')) = Inr (Some \<lparr>sb_name = ''b''\<rparr>)"
    by (simp add: demo_client_def sdk_bucket_def demo_path_def demo_root_def)
  have h3: "paginated_listing demo_client (root (demo_root ''b'')) None None None
              [demo_response_1, demo_response_2]"
    by (simp add: demo_client_def sdk_bucket_def demo_path_def demo_root_def demo_list_blobs_def demo_response_1_def
        demo_response_2_def)
  have h4: "length [demo_response_1, demo_response_2] \<le> 2" by simp
  show ?thesis
    using h3 list_blobs_one_record_per_object[OF h1 h2 h3 h4, of False]
    by (simp add: demo_path_def demo_root_def demo_response_1_def demo_response_2_def demo_item_def)
qed

subsection \<open>The constructor and \<^verbatim>\<open>copy_blob\<close>\<close>

text \<open>
  C9. The constructor never looks at its \<^verbatim>\<open>client\<close> argument: two calls that differ in
  that argument only build the same instance, and the instance's client is \<^verbatim>\<open>None\<close> (the
  SDK is unavailable or \<^verbatim>\<open>storage.Client()\<close> raised) or the client that
  \<^verbatim>\<open>storage.Client()\<close> has just made.
\<close>

theorem init_ignores_client_argument:
  "BucketClientGCS_init storage a = BucketClientGCS_init storage b \<and>
   client (BucketClientGCS_init storage a) =
     (case storage of None \<Rightarrow> None | Some (Inl e) \<Rightarrow> None | Some (Inr fresh) \<Rightarrow> Some fresh)"
  by (simp add: BucketClientGCS_init_def split: option.split sum.split)

text \<open>
  C10. A successful \<^verbatim>\<open>copy_blob\<close> (the blob has a raw handle and the SDK returns the new
  object) returns a record whose \<^verbatim>\<open>bucket\<close> field is \<^verbatim>\<open>self.bucket\<close>, the bucket the
  method was called on; it is the target's bucket only when the two are the same.
\<close>

theorem copy_blob_bucket_is_source:
  assumes "BlobGCS_raw blob = Some raw"
    and "native_copy_blob (BucketGCS_bucket self) raw (BucketGCS_bucket target) name =
           Inr (Some native_blob)"
  shows "\<exists>r. copy_blob native_copy_blob self blob target name = Inr (Some r) \<and>
             BlobGCS_bucket r = Native (BucketGCS_bucket self) \<and>
             (BucketGCS_bucket target \<noteq> BucketGCS_bucket self \<longrightarrow>
                BlobGCS_bucket r \<noteq> Native (BucketGCS_bucket target))"
  using assms by (simp add: copy_blob_def)

theorem copy_blob_bucket_is_source_witness:
  "\<exists>r. copy_blob (\<lambda>src raw dst name. Inr (Some (raw\<lparr>nb_name := name\<rparr>)))
          \<lparr>BucketGCS_name = ''b'', BucketGCS_bucket = \<lparr>sb_name = ''b''\<rparr>\<rparr>
          (blob_of_item \<lparr>BucketGCS_name = ''b'', BucketGCS_bucket = \<lparr>sb_name = ''b''\<rparr>\<rparr>
             (demo_item ''f.txt'' 5 12))
          \<lparr>BucketGCS_name = ''c'', BucketGCS_bucket = \<lparr>sb_name = ''c''\<rparr>\<rparr> ''g.txt'' = Inr (Some r) \<and>
       BlobGCS_bucket r = Native \<lparr>sb_name = ''b''\<rparr> \<and>
       BlobGCS_bucket r \<noteq> Native \<lparr>sb_name = ''c''\<rparr>"
  using copy_blob_bucket_is_source[of
      "blob_of_item \<lparr>BucketGCS_name = ''b'', BucketGCS_bucket = \<lparr>sb_name = ''b''\<rparr>\<rparr>
         (demo_item ''f.txt'' 5 12)"
      "demo_item ''f.txt'' 5 12"
      "\<lambda>src raw dst name. Inr (Some (raw\<lparr>nb_name := name\<rparr>))"
      "\<lparr>BucketGCS_name = ''b'', BucketGCS_bucket = \<lparr>sb_name = ''b''\<rparr>\<rparr>"
      "\<lparr>BucketGCS_name = ''c'', BucketGCS_bucket = \<lparr>sb_name = ''c''\<rparr>\<rparr>"
      "''g.txt''"
      "(demo_item ''f.txt'' 5 12)\<lparr>nb_name := ''g.txt''\<rparr>"]
  by (simp add: blob_of_item_def)

end
